theory Spec2Isabelle
  imports Main
begin

section \<open>Document lifecycle manager (src/lib/document.js)\<close>

text \<open>
  The source file holds two revisions of the class \<open>Document\<close>: the simpler one
  (lines 1-103) and the security-hardened one (lines 104-305). The hardened
  methods keep their names; the methods of the simpler revision carry the prefix
  \<open>simple_\<close>. Every method is a function from the object \<open>this\<close> and the world
  to a result, the mutated object and the new world; a thrown error is \<open>Inl\<close>.
\<close>

subsection \<open>Data\<close>

text \<open>\<open>DOCUMENT_STATES\<close> of \<open>./constants\<close>: the members the code refers to.\<close>

datatype doc_state = Downloading | Downloaded | Removed

text \<open>\<open>PUBSUB_EVENTS\<close> of \<open>./constants\<close>: the two topics the code publishes to.\<close>

datatype topic = DOCUMENT_DOWNLOADED | DOCUMENT_DOWNLOAD_FAILED

record user =
  mail :: string
  firstName :: string
  lastName :: string

text \<open>
  The object \<open>this\<close>. A property that the code may find undefined is an option.
  \<open>filePath\<close> is set once by the constructor to \<open>path.join(STORAGE_DIR, uuid)\<close>.
\<close>

record document =
  uuid :: string
  workGroup :: string
  user :: user
  filePath :: string
  state :: "doc_state option"
  key :: "string option"
  name :: "string option"
  parent :: "string option"
  fileType :: "string option"
  documentType :: "string option"
  downloadUrlPath :: "string option"
  callbackUrlPath :: "string option"

text \<open>
  What \<open>storageService.getNode\<close> answers: the fields that the class reads.
  \<open>Object.assign(this, document)\<close> copies the properties that the node has, so
  a node without a parent leaves the parent of the object as it was.
\<close>

record node =
  node_name :: string
  node_parent :: "string option"

text \<open>
  A thrown value: \<open>new Error(message)\<close>, or an error of the remote client whose
  \<open>response.status\<close> is the first argument (\<open>None\<close>: no response or no status).
\<close>

datatype js_error = Error string | ResponseError "nat option" string

fun response_status :: "js_error \<Rightarrow> nat option" where
  "response_status (Error m) = None"
| "response_status (ResponseError st m) = st"

text \<open>
  How one call to a collaborator ends. \<open>ThrowsAfter n e\<close> throws after a part of
  the effect has happened: \<open>writeFile\<close> leaves the first \<open>n\<close> bytes on disk.
\<close>

datatype outcome = Returns | Throws js_error | ThrowsAfter nat js_error

fun thrown :: "outcome \<Rightarrow> js_error option" where
  "thrown Returns = None"
| "thrown (Throws e) = Some e"
| "thrown (ThrowsAfter n e) = Some e"

text \<open>The second argument of \<open>Files.updateByUuid\<close>: the fields it sets.\<close>

record file_update =
  upd_state :: "doc_state option"
  upd_key :: "string option"

datatype call =
    GetNode string string
  | DownloadDocument string string
  | WriteFile string
  | DeleteFile string
  | FilesGetByUuid string
  | FilesUpdateByUuid string file_update
  | FilesCreate string "doc_state option" "string option"
  | FilesRemoveByUuid string
  | Publish topic

datatype notification =
    DocumentDownloaded document
  | DocumentDownloadFailed document js_error

text \<open>
  The world outside the object: the Metadata Store \<open>db\<close>, the Local Cache \<open>fs\<close>,
  what the Remote Storage Gateway holds, the fate of the coming calls (the first
  outcome belongs to the next call; when the list is empty the call returns), the
  calls issued so far with their outcomes, the notifications published so far, and
  the generator behind \<open>uuidV4\<close> with the number of keys drawn from it.
\<close>

record world =
  db :: "string \<rightharpoonup> document"
  fs :: "string \<rightharpoonup> string"
  remote :: "string \<times> string \<Rightarrow> node \<times> string"
  fate :: "outcome list"
  calls :: "(call \<times> outcome) list"
  published :: "notification list"
  uuid_source :: "nat \<Rightarrow> string"
  uuid_count :: nat

subsection \<open>Collaborators\<close>

definition attempt :: "call \<Rightarrow> world \<Rightarrow> outcome \<times> world" where
  "attempt c w =
     (case fate w of
        [] \<Rightarrow> (Returns, w\<lparr>calls := calls w @ [(c, Returns)]\<rparr>)
      | oc # rest \<Rightarrow> (oc, w\<lparr>fate := rest, calls := calls w @ [(c, oc)]\<rparr>))"

text \<open>\<open>uuidV4\<close> of the package \<open>uuid\<close>: the next value of the generator.\<close>

definition uuidV4 :: "world \<Rightarrow> string \<times> world" where
  "uuidV4 w = (uuid_source w (uuid_count w), w\<lparr>uuid_count := Suc (uuid_count w)\<rparr>)"

text \<open>
  Modelled from the spec: the module \<open>../lib/files\<close> (the Metadata Store), which is
  not under src/. The spec describes a durable key-value record store keyed by the
  document identifier, whose records are created on the first state transition and
  mutated in place thereafter. \<open>getByUuid\<close> answers the record or null,
  \<open>updateByUuid\<close> sets the given fields of the record when there is one,
  \<open>create\<close> stores the object under its identifier. The spec has no word on
  \<open>removeByUuid\<close>, which only the simpler revision calls: it deletes the
  record, as its name says and as the comment in the handler of the hardened
  \<open>save\<close> (removing the document from the db) remembers. A call that throws
  leaves the store as it was.
\<close>

definition Files_getByUuid :: "string \<Rightarrow> world \<Rightarrow> (js_error + document option) \<times> world" where
  "Files_getByUuid u w =
     (case attempt (FilesGetByUuid u) w of
        (oc, w1) \<Rightarrow>
          (case thrown oc of
             Some e \<Rightarrow> (Inl e, w1)
           | None \<Rightarrow> (Inr (db w1 u), w1)))"

definition apply_update :: "file_update \<Rightarrow> document \<Rightarrow> document" where
  "apply_update upd r =
     r\<lparr>state := (case upd_state upd of None \<Rightarrow> state r | Some s \<Rightarrow> Some s),
       key := (case upd_key upd of None \<Rightarrow> key r | Some k \<Rightarrow> Some k)\<rparr>"

definition Files_updateByUuid :: "string \<Rightarrow> file_update \<Rightarrow> world \<Rightarrow> (js_error + unit) \<times> world" where
  "Files_updateByUuid u upd w =
     (case attempt (FilesUpdateByUuid u upd) w of
        (oc, w1) \<Rightarrow>
          (case thrown oc of
             Some e \<Rightarrow> (Inl e, w1)
           | None \<Rightarrow>
               (case db w1 u of
                  None \<Rightarrow> (Inr (), w1)
                | Some r \<Rightarrow> (Inr (), w1\<lparr>db := (db w1)(u \<mapsto> apply_update upd r)\<rparr>))))"

definition Files_create :: "document \<Rightarrow> world \<Rightarrow> (js_error + unit) \<times> world" where
  "Files_create d w =
     (case attempt (FilesCreate (uuid d) (state d) (key d)) w of
        (oc, w1) \<Rightarrow>
          (case thrown oc of
             Some e \<Rightarrow> (Inl e, w1)
           | None \<Rightarrow> (Inr (), w1\<lparr>db := (db w1)(uuid d \<mapsto> d)\<rparr>)))"

definition Files_removeByUuid :: "string \<Rightarrow> world \<Rightarrow> (js_error + unit) \<times> world" where
  "Files_removeByUuid u w =
     (case attempt (FilesRemoveByUuid u) w of
        (oc, w1) \<Rightarrow>
          (case thrown oc of
             Some e \<Rightarrow> (Inl e, w1)
           | None \<Rightarrow> (Inr (), w1\<lparr>db := (db w1)(u := None)\<rparr>)))"

text \<open>
  Modelled from the spec: \<open>existsSync\<close>, \<open>writeFile\<close> and \<open>deleteFile\<close> of
  \<open>./helpers\<close> (the Local Cache), which is not under src/. The spec describes one
  file per document identifier at a deterministic path, created by a successful
  fetch and deleted on removal, of which only the existence is queried.
\<close>

definition existsSync :: "world \<Rightarrow> string \<Rightarrow> bool" where
  "existsSync w p = (fs w p \<noteq> None)"

definition writeFile :: "string \<Rightarrow> string \<Rightarrow> world \<Rightarrow> (js_error + unit) \<times> world" where
  "writeFile p fileData w =
     (case attempt (WriteFile p) w of
        (oc, w1) \<Rightarrow>
          (case oc of
             Returns \<Rightarrow> (Inr (), w1\<lparr>fs := (fs w1)(p \<mapsto> fileData)\<rparr>)
           | Throws e \<Rightarrow> (Inl e, w1)
           | ThrowsAfter n e \<Rightarrow> (Inl e, w1\<lparr>fs := (fs w1)(p \<mapsto> take n fileData)\<rparr>)))"

definition deleteFile :: "string \<Rightarrow> world \<Rightarrow> (js_error + unit) \<times> world" where
  "deleteFile p w =
     (case attempt (DeleteFile p) w of
        (oc, w1) \<Rightarrow>
          (case thrown oc of
             Some e \<Rightarrow> (Inl e, w1)
           | None \<Rightarrow> (Inr (), w1\<lparr>fs := (fs w1)(p := None)\<rparr>)))"

text \<open>
  The Remote Storage Gateway (\<open>storageService\<close>, a client of the package
  \<open>linshare-api-client\<close>): a call that goes through answers what the remote
  store holds; every failure, the 404 of a missing document included, is an
  outcome of the call.
\<close>

definition getNode :: "string \<Rightarrow> string \<Rightarrow> world \<Rightarrow> (js_error + node) \<times> world" where
  "getNode wg u w =
     (case attempt (GetNode wg u) w of
        (oc, w1) \<Rightarrow>
          (case thrown oc of
             Some e \<Rightarrow> (Inl e, w1)
           | None \<Rightarrow> (Inr (fst (remote w1 (wg, u))), w1)))"

definition downloadDocument :: "string \<Rightarrow> string \<Rightarrow> world \<Rightarrow> (js_error + string) \<times> world" where
  "downloadDocument wg u w =
     (case attempt (DownloadDocument wg u) w of
        (oc, w1) \<Rightarrow>
          (case thrown oc of
             Some e \<Rightarrow> (Inl e, w1)
           | None \<Rightarrow> (Inr (snd (remote w1 (wg, u))), w1)))"

text \<open>
  Modelled from the spec: \<open>pubsub.topic(t).publish(x)\<close> of \<open>../lib/pubsub\<close> (the
  Notification Bus), which is not under src/: the event is handed over, and the
  delivery is the collaborator's business.
\<close>

definition publish :: "topic \<Rightarrow> notification \<Rightarrow> world \<Rightarrow> world" where
  "publish t x w =
     w\<lparr>calls := calls w @ [(Publish t, Returns)], published := published w @ [x]\<rparr>"

text \<open>
  \<open>getFileExtension\<close> and \<open>getFileType\<close> of \<open>./helpers\<close> are not under src/ and
  are parameters of the methods that call them.
\<close>

record helpers =
  getFileExtension :: "string \<Rightarrow> string"
  getFileType :: "string \<Rightarrow> string"

subsection \<open>Methods of the hardened revision\<close>

definition isDownloaded :: "document \<Rightarrow> world \<Rightarrow> bool" where
  "isDownloaded this w = (existsSync w (filePath this) \<and> state this = Some Downloaded)"

definition isDownloading :: "document \<Rightarrow> bool" where
  "isDownloading this = (state this = Some Downloading)"

text \<open>A template literal prints an undefined value as the word undefined.\<close>

fun interpolate :: "string option \<Rightarrow> string" where
  "interpolate None = ''undefined''"
| "interpolate (Some s) = s"

definition populateMetadata ::
  "helpers \<Rightarrow> document \<Rightarrow> world \<Rightarrow> (js_error + unit) \<times> document \<times> world" where
  "populateMetadata h this w =
     (case getNode (workGroup this) (uuid this) w of
        (Inl error, w1) \<Rightarrow>
          (if response_status error = Some 404
           then (Inl (Error ''Document not found''), this, w1)
           else (Inl error, this, w1))
      | (Inr document, w1) \<Rightarrow>
          (let this1 = this\<lparr>name := Some (node_name document),
                             parent := (case node_parent document of None \<Rightarrow> parent this | Some p \<Rightarrow> Some p),
                             fileType := Some (getFileExtension h (node_name document)),
                             documentType := Some (getFileType h (node_name document))\<rparr>
           in if isDownloaded this w1
              then (Inr (), this1\<lparr>downloadUrlPath := Some (''/files/'' @ uuid this),
                                   callbackUrlPath :=
                                     Some (''/api/documents/track?workGroupUuid='' @ workGroup this
                                           @ ''&documentUuid='' @ uuid this)\<rparr>, w1)
              else (Inr (), this1, w1)))"

definition load :: "document \<Rightarrow> world \<Rightarrow> (js_error + unit) \<times> document \<times> world" where
  "load this w =
     (case Files_getByUuid (uuid this) w of
        (Inl e, w1) \<Rightarrow> (Inl e, this, w1)
      | (Inr None, w1) \<Rightarrow> (Inr (), this, w1)
      | (Inr (Some document), w1) \<Rightarrow>
          (Inr (), this\<lparr>state := state document, key := key document\<rparr>, w1))"

definition setState ::
  "doc_state \<Rightarrow> document \<Rightarrow> world \<Rightarrow> (js_error + unit) \<times> document \<times> world" where
  "setState s this w =
     (let this1 = this\<lparr>state := Some s\<rparr> in
      case Files_getByUuid (uuid this1) w of
        (Inl e, w1) \<Rightarrow> (Inl e, this1, w1)
      | (Inr (Some document), w1) \<Rightarrow>
          (case Files_updateByUuid (uuid this1) \<lparr>upd_state = Some s, upd_key = None\<rparr> w1 of
             (Inl e, w2) \<Rightarrow> (Inl e, this1, w2)
           | (Inr u, w2) \<Rightarrow> (Inr (), this1, w2))
      | (Inr None, w1) \<Rightarrow>
          (case uuidV4 w1 of
             (k, w2) \<Rightarrow>
               (let this2 = this1\<lparr>key := Some k\<rparr> in
                case Files_create this2 w2 of
                  (Inl e, w3) \<Rightarrow> (Inl e, this2, w3)
                | (Inr u, w3) \<Rightarrow> (Inr (), this2, w3))))"

definition remove :: "document \<Rightarrow> world \<Rightarrow> (js_error + unit) \<times> document \<times> world" where
  "remove this w =
     (case uuidV4 w of
        (k, w1) \<Rightarrow>
          (case Files_updateByUuid (uuid this) \<lparr>upd_state = Some Removed, upd_key = Some k\<rparr> w1 of
             (Inl e, w2) \<Rightarrow> (Inl e, this, w2)
           | (Inr u, w2) \<Rightarrow>
               (case deleteFile (filePath this) w2 of
                  (Inl e, w3) \<Rightarrow> (Inl e, this, w3)
                | (Inr u', w3) \<Rightarrow> (Inr (), this, w3))))"

text \<open>The body of the \<open>try\<close> block of \<open>save\<close>.\<close>

definition save_try ::
  "helpers \<Rightarrow> document \<Rightarrow> world \<Rightarrow> (js_error + unit) \<times> document \<times> world" where
  "save_try h this w =
     (case downloadDocument (workGroup this) (uuid this) w of
        (Inl e, w1) \<Rightarrow> (Inl e, this, w1)
      | (Inr fileData, w1) \<Rightarrow>
          (case writeFile (filePath this) fileData w1 of
             (Inl e, w2) \<Rightarrow> (Inl e, this, w2)
           | (Inr u, w2) \<Rightarrow>
               (case setState Downloaded this w2 of
                  (Inl e, this3, w3) \<Rightarrow> (Inl e, this3, w3)
                | (Inr u', this3, w3) \<Rightarrow>
                    (case populateMetadata h this3 w3 of
                       (Inl e, this4, w4) \<Rightarrow> (Inl e, this4, w4)
                     | (Inr u'', this4, w4) \<Rightarrow>
                         (Inr (), this4,
                          publish DOCUMENT_DOWNLOADED (DocumentDownloaded this4) w4)))))"

definition save ::
  "helpers \<Rightarrow> document \<Rightarrow> world \<Rightarrow> (js_error + unit) \<times> document \<times> world" where
  "save h this w =
     (case save_try h this w of
        (Inr u, this1, w1) \<Rightarrow> (Inr (), this1, w1)
      | (Inl error, this1, w1) \<Rightarrow>
          (case remove this1 w1 of
             (Inl e, this2, w2) \<Rightarrow> (Inl e, this2, w2)
           | (Inr u, this2, w2) \<Rightarrow>
               (Inl error, this2,
                publish DOCUMENT_DOWNLOAD_FAILED (DocumentDownloadFailed this2 error) w2)))"

subsection \<open>The editing payload\<close>

record payload_document =
  pd_fileType :: "string option"
  pd_title :: "string option"
  pd_url :: string
  pd_key :: "string option"

record editor_user =
  eu_id :: string
  eu_name :: string

record editor_config =
  ec_user :: editor_user
  ec_callbackUrl :: string
  ec_forcesave :: bool

record payload =
  p_document :: payload_document
  p_documentType :: "string option"
  p_editorConfig :: editor_config

text \<open>The value of \<open>config.get('documentServer.signature.browser')\<close>.\<close>

record signature_config =
  enable :: bool
  secret :: string
  algorithm :: string
  expiresIn :: string

text \<open>The second argument of \<open>generateToken\<close>.\<close>

record token_options =
  opt_key :: string
  opt_algorithm :: string
  opt_expiresIn :: string

text \<open>
  The ambient configuration that \<open>buildDocumentserverPayload\<close> reads, with
  \<open>generateToken\<close> of \<open>./jwt\<close> (the Token Signer), which is not under src/.
\<close>

record config =
  webserver_baseUrl :: string
  signature_browser :: signature_config
  generateToken :: "payload \<Rightarrow> token_options \<Rightarrow> string"

text \<open>What the method returns: the payload, and the token when one is attached.\<close>

record signed_payload =
  body :: payload
  token :: "string option"

definition buildDocumentserverPayload :: "config \<Rightarrow> document \<Rightarrow> signed_payload" where
  "buildDocumentserverPayload cfg this =
     (let payload =
        \<lparr>p_document =
           \<lparr>pd_fileType = fileType this,
            pd_title = name this,
            pd_url = webserver_baseUrl cfg @ interpolate (downloadUrlPath this),
            pd_key = key this\<rparr>,
         p_documentType = documentType this,
         p_editorConfig =
           \<lparr>ec_user =
              \<lparr>eu_id = mail (user this),
               eu_name = firstName (user this) @ '' '' @ lastName (user this)\<rparr>,
            ec_callbackUrl = webserver_baseUrl cfg @ interpolate (callbackUrlPath this),
            ec_forcesave = True\<rparr>\<rparr>
      in if \<not> enable (signature_browser cfg)
         then \<lparr>body = payload, token = None\<rparr>
         else \<lparr>body = payload,
               token = Some (generateToken cfg payload
                               \<lparr>opt_key = secret (signature_browser cfg),
                                opt_algorithm = algorithm (signature_browser cfg),
                                opt_expiresIn = expiresIn (signature_browser cfg)\<rparr>)\<rparr>)"

subsection \<open>Methods of the simpler revision\<close>

definition simple_populateMetadata ::
  "helpers \<Rightarrow> document \<Rightarrow> world \<Rightarrow> (js_error + unit) \<times> document \<times> world" where
  "simple_populateMetadata h this w =
     (case getNode (workGroup this) (uuid this) w of
        (Inl e, w1) \<Rightarrow> (Inl e, this, w1)
      | (Inr document, w1) \<Rightarrow>
          (Inr (), this\<lparr>name := Some (node_name document),
                        parent := (case node_parent document of None \<Rightarrow> parent this | Some p \<Rightarrow> Some p),
                        fileType := Some (getFileExtension h (node_name document)),
                        documentType := Some (getFileType h (node_name document))\<rparr>, w1))"

definition simple_loadState :: "document \<Rightarrow> world \<Rightarrow> (js_error + unit) \<times> document \<times> world" where
  "simple_loadState this w =
     (case Files_getByUuid (uuid this) w of
        (Inl e, w1) \<Rightarrow> (Inl e, this, w1)
      | (Inr None, w1) \<Rightarrow> (Inr (), this, w1)
      | (Inr (Some document), w1) \<Rightarrow> (Inr (), this\<lparr>state := state document\<rparr>, w1))"

definition simple_setState ::
  "doc_state \<Rightarrow> document \<Rightarrow> world \<Rightarrow> (js_error + unit) \<times> document \<times> world" where
  "simple_setState s this w =
     (let this1 = this\<lparr>state := Some s\<rparr> in
      case Files_getByUuid (uuid this1) w of
        (Inl e, w1) \<Rightarrow> (Inl e, this1, w1)
      | (Inr (Some document), w1) \<Rightarrow>
          (case Files_updateByUuid (uuid this1) \<lparr>upd_state = Some s, upd_key = None\<rparr> w1 of
             (Inl e, w2) \<Rightarrow> (Inl e, this1, w2)
           | (Inr u, w2) \<Rightarrow> (Inr (), this1, w2))
      | (Inr None, w1) \<Rightarrow>
          (case Files_create this1 w1 of
             (Inl e, w2) \<Rightarrow> (Inl e, this1, w2)
           | (Inr u, w2) \<Rightarrow> (Inr (), this1, w2)))"

definition simple_remove :: "document \<Rightarrow> world \<Rightarrow> (js_error + unit) \<times> document \<times> world" where
  "simple_remove this w =
     (case Files_removeByUuid (uuid this) w of
        (Inl e, w1) \<Rightarrow> (Inl e, this, w1)
      | (Inr u, w1) \<Rightarrow>
          (case deleteFile (filePath this) w1 of
             (Inl e, w2) \<Rightarrow> (Inl e, this, w2)
           | (Inr u', w2) \<Rightarrow> (Inr (), this, w2)))"




subsection \<open>Runs of lifecycle operations\<close>

text \<open>
  The operations of the hardened revision that touch the Metadata Store or the
  Local Cache, each called on an object of its own, and the worlds that a
  sequence of them goes through.
\<close>

datatype lifecycle_op = Load | SetState doc_state | Remove | Save | PopulateMetadata

fun run_op ::
  "helpers \<Rightarrow> lifecycle_op \<Rightarrow> document \<Rightarrow> world \<Rightarrow> (js_error + unit) \<times> document \<times> world" where
  "run_op h Load this w = load this w"
| "run_op h (SetState s) this w = setState s this w"
| "run_op h Remove this w = remove this w"
| "run_op h Save this w = save h this w"
| "run_op h PopulateMetadata this w = populateMetadata h this w"

fun history :: "helpers \<Rightarrow> (lifecycle_op \<times> document) list \<Rightarrow> world \<Rightarrow> world list" where
  "history h [] w = [w]"
| "history h ((op, this) # rest) w = w # history h rest (snd (snd (run_op h op this w)))"

text \<open>Every access key in the store has been drawn from the generator.\<close>

definition keys_issued :: "world \<Rightarrow> bool" where
  "keys_issued w =
     (\<forall>u r k. db w u = Some r \<and> key r = Some k \<longrightarrow> (\<exists>i<uuid_count w. k = uuid_source w i))"

text \<open>
  From \<open>w\<close> to \<open>w'\<close> no record has left the store, the generator is the same and
  has not gone back, and the keys of the store are still keys drawn from it.
\<close>

definition extends :: "world \<Rightarrow> world \<Rightarrow> bool" where
  "extends w w' =
     (dom (db w) \<subseteq> dom (db w') \<and> uuid_source w' = uuid_source w \<and>
      uuid_count w \<le> uuid_count w' \<and> (keys_issued w \<longrightarrow> keys_issued w'))"

text \<open>The calls that a run from \<open>w\<close> to \<open>w'\<close> has issued.\<close>

definition new_calls :: "world \<Rightarrow> world \<Rightarrow> (call \<times> outcome) list" where
  "new_calls w w' = drop (length (calls w)) (calls w')"

fun sets_state :: "doc_state \<Rightarrow> call \<times> outcome \<Rightarrow> bool" where
  "sets_state s (FilesUpdateByUuid u upd, oc) = (upd_state upd = Some s)"
| "sets_state s (FilesCreate u st k, oc) = (st = Some s)"
| "sets_state s (c, oc) = False"

fun written :: "call \<times> outcome \<Rightarrow> bool" where
  "written (WriteFile p, oc) = (oc = Returns)"
| "written (c, oc) = False"

fun downloaded_bytes :: "call \<times> outcome \<Rightarrow> bool" where
  "downloaded_bytes (DownloadDocument wg u, oc) = (oc = Returns)"
| "downloaded_bytes (c, oc) = False"

fun refreshed :: "call \<times> outcome \<Rightarrow> bool" where
  "refreshed (GetNode wg u, oc) = (oc = Returns)"
| "refreshed (c, oc) = False"

text \<open>\<open>only_after P Q es\<close>: no call with \<open>P\<close> is issued before the first call with \<open>Q\<close>.\<close>

fun only_after ::
  "(call \<times> outcome \<Rightarrow> bool) \<Rightarrow> (call \<times> outcome \<Rightarrow> bool) \<Rightarrow> (call \<times> outcome) list \<Rightarrow> bool" where
  "only_after P Q [] = True"
| "only_after P Q (e # es) = (Q e \<or> (\<not> P e \<and> only_after P Q es))"

subsection \<open>Example values\<close>

definition alice :: user where
  "alice = \<lparr>mail = ''alice@example.org'', firstName = ''Alice'', lastName = ''Martin''\<rparr>"

definition doc1 :: document where
  "doc1 = \<lparr>uuid = ''doc-1'', workGroup = ''wg-1'', user = alice, filePath = ''files/doc-1'',
           state = None, key = None, name = None, parent = None, fileType = None,
           documentType = None, downloadUrlPath = None, callbackUrlPath = None\<rparr>"

definition helpers0 :: helpers where
  "helpers0 = \<lparr>getFileExtension = (\<lambda>n. ''docx''), getFileType = (\<lambda>n. ''text'')\<rparr>"

text \<open>The generator of the examples: the n-th key is the letter k, n + 1 times.\<close>

definition keygen :: "nat \<Rightarrow> string" where
  "keygen n = replicate (Suc n) (CHR ''k'')"

text \<open>An empty store and an empty cache; the remote store answers for every document.\<close>

definition world0 :: world where
  "world0 = \<lparr>db = Map.empty, fs = Map.empty,
             remote = (\<lambda>x. (\<lparr>node_name = ''report.docx'', node_parent = None\<rparr>, ''bytes'')),
             fate = [], calls = [], published = [],
             uuid_source = keygen, uuid_count = 0\<rparr>"

text \<open>A store with the record of \<open>doc-1\<close> in the given state, holding the first key, and its cached file.\<close>

definition stored :: "doc_state \<Rightarrow> world" where
  "stored s = world0\<lparr>db := [''doc-1'' \<mapsto> doc1\<lparr>state := Some s, key := Some ''k''\<rparr>],
                     fs := [''files/doc-1'' \<mapsto> ''old bytes''],
                     uuid_count := 1\<rparr>"

definition config0 :: config where
  "config0 = \<lparr>webserver_baseUrl = ''http://backend'',
              signature_browser =
                \<lparr>enable = False, secret = ''s3cret'', algorithm = ''HS256'', expiresIn = ''5m''\<rparr>,
              generateToken = (\<lambda>p opts. ''signed'')\<rparr>"

section \<open>What each collaborator call does to the world\<close>

lemma attempt_facts:
  "attempt c w = (oc, w1) \<Longrightarrow>
     db w1 = db w \<and> fs w1 = fs w \<and> remote w1 = remote w \<and> published w1 = published w \<and>
     uuid_source w1 = uuid_source w \<and> uuid_count w1 = uuid_count w \<and>
     calls w1 = calls w @ [(c, oc)] \<and> fate w1 = tl (fate w)"
  by (auto simp: attempt_def split: list.splits)

lemma thrown_None_iff [simp]: "(thrown oc = None) = (oc = Returns)"
  by (cases oc) auto

lemma Files_getByUuid_facts:
  "Files_getByUuid u w = (res, w1) \<Longrightarrow>
     db w1 = db w \<and> fs w1 = fs w \<and> published w1 = published w \<and>
     uuid_source w1 = uuid_source w \<and> uuid_count w1 = uuid_count w \<and>
     (\<exists>oc. calls w1 = calls w @ [(FilesGetByUuid u, oc)] \<and>
           res = (case thrown oc of Some e \<Rightarrow> Inl e | None \<Rightarrow> Inr (db w u)))"
  by (auto simp: Files_getByUuid_def split: prod.splits option.splits dest!: attempt_facts)

lemma Files_updateByUuid_facts:
  "Files_updateByUuid u upd w = (res, w1) \<Longrightarrow>
     fs w1 = fs w \<and> published w1 = published w \<and>
     uuid_source w1 = uuid_source w \<and> uuid_count w1 = uuid_count w \<and>
     (\<exists>oc. calls w1 = calls w @ [(FilesUpdateByUuid u upd, oc)] \<and>
        (case thrown oc of
           Some e \<Rightarrow> res = Inl e \<and> db w1 = db w
         | None \<Rightarrow> res = Inr () \<and> oc = Returns \<and>
             db w1 = (case db w u of None \<Rightarrow> db w | Some r \<Rightarrow> (db w)(u \<mapsto> apply_update upd r))))"
  apply (auto simp: Files_updateByUuid_def split: prod.splits option.splits dest!: attempt_facts)
  done

lemma Files_create_facts:
  "Files_create d w = (res, w1) \<Longrightarrow>
     fs w1 = fs w \<and> published w1 = published w \<and>
     uuid_source w1 = uuid_source w \<and> uuid_count w1 = uuid_count w \<and>
     (\<exists>oc. calls w1 = calls w @ [(FilesCreate (uuid d) (state d) (key d), oc)] \<and>
        (case thrown oc of
           Some e \<Rightarrow> res = Inl e \<and> db w1 = db w
         | None \<Rightarrow> res = Inr () \<and> oc = Returns \<and> db w1 = (db w)(uuid d \<mapsto> d)))"
  apply (auto simp: Files_create_def split: prod.splits option.splits dest!: attempt_facts)
  done

lemma Files_removeByUuid_facts:
  "Files_removeByUuid u w = (res, w1) \<Longrightarrow>
     fs w1 = fs w \<and> published w1 = published w \<and>
     uuid_source w1 = uuid_source w \<and> uuid_count w1 = uuid_count w \<and>
     (\<exists>oc. calls w1 = calls w @ [(FilesRemoveByUuid u, oc)] \<and>
        (case thrown oc of
           Some e \<Rightarrow> res = Inl e \<and> db w1 = db w
         | None \<Rightarrow> res = Inr () \<and> oc = Returns \<and> db w1 = (db w)(u := None)))"
  apply (auto simp: Files_removeByUuid_def split: prod.splits option.splits dest!: attempt_facts)
  done

lemma deleteFile_facts:
  "deleteFile p w = (res, w1) \<Longrightarrow>
     db w1 = db w \<and> published w1 = published w \<and>
     uuid_source w1 = uuid_source w \<and> uuid_count w1 = uuid_count w \<and>
     (\<exists>oc. calls w1 = calls w @ [(DeleteFile p, oc)] \<and>
        (case thrown oc of
           Some e \<Rightarrow> res = Inl e \<and> fs w1 = fs w
         | None \<Rightarrow> res = Inr () \<and> oc = Returns \<and> fs w1 = (fs w)(p := None)))"
  apply (auto simp: deleteFile_def split: prod.splits option.splits dest!: attempt_facts)
  done

lemma writeFile_facts:
  "writeFile p x w = (res, w1) \<Longrightarrow>
     db w1 = db w \<and> published w1 = published w \<and>
     uuid_source w1 = uuid_source w \<and> uuid_count w1 = uuid_count w \<and>
     (\<exists>oc. calls w1 = calls w @ [(WriteFile p, oc)] \<and>
        (case thrown oc of
           Some e \<Rightarrow> res = Inl e
         | None \<Rightarrow> res = Inr () \<and> oc = Returns \<and> fs w1 = (fs w)(p \<mapsto> x)))"
  by (auto simp: writeFile_def split: prod.splits outcome.splits dest!: attempt_facts)

lemma getNode_facts:
  "getNode wg u w = (res, w1) \<Longrightarrow>
     db w1 = db w \<and> fs w1 = fs w \<and> published w1 = published w \<and>
     uuid_source w1 = uuid_source w \<and> uuid_count w1 = uuid_count w \<and>
     (\<exists>oc. calls w1 = calls w @ [(GetNode wg u, oc)] \<and>
        (case thrown oc of
           Some e \<Rightarrow> res = Inl e
         | None \<Rightarrow> res = Inr (fst (remote w (wg, u))) \<and> oc = Returns))"
  apply (auto simp: getNode_def split: prod.splits option.splits dest!: attempt_facts)
  done

lemma downloadDocument_facts:
  "downloadDocument wg u w = (res, w1) \<Longrightarrow>
     db w1 = db w \<and> fs w1 = fs w \<and> published w1 = published w \<and>
     uuid_source w1 = uuid_source w \<and> uuid_count w1 = uuid_count w \<and>
     (\<exists>oc. calls w1 = calls w @ [(DownloadDocument wg u, oc)] \<and>
        (case thrown oc of
           Some e \<Rightarrow> res = Inl e
         | None \<Rightarrow> res = Inr (snd (remote w (wg, u))) \<and> oc = Returns))"
  apply (auto simp: downloadDocument_def split: prod.splits option.splits dest!: attempt_facts)
  done


lemma uuidV4_facts:
  "uuidV4 w = (k, w1) \<Longrightarrow>
     k = uuid_source w (uuid_count w) \<and> w1 = w\<lparr>uuid_count := Suc (uuid_count w)\<rparr>"
  by (auto simp: uuidV4_def)

section \<open>The hardened operations extend the world\<close>

lemma extends_refl: "extends w w"
  by (simp add: extends_def)

lemma extends_trans: "extends w w1 \<Longrightarrow> extends w1 w2 \<Longrightarrow> extends w w2"
  by (auto simp: extends_def)

lemma extends_same_store:
  "db w1 = db w \<Longrightarrow> uuid_source w1 = uuid_source w \<Longrightarrow> uuid_count w1 = uuid_count w \<Longrightarrow>
   extends w w1"
  by (simp add: extends_def keys_issued_def)

lemma keys_issued_update:
  assumes "keys_issued w" and "db w u = Some r"
      and "\<forall>k. key r' = Some k \<longrightarrow> (key r = Some k \<or> (\<exists>i<uuid_count w. k = uuid_source w i))"
      and "db w1 = (db w)(u \<mapsto> r')" and "uuid_source w1 = uuid_source w"
      and "uuid_count w1 = uuid_count w"
  shows "keys_issued w1"
  using assms unfolding keys_issued_def
  by (metis fun_upd_apply option.inject)

lemma keys_issued_insert:
  assumes "keys_issued w"
      and "\<forall>k. key r' = Some k \<longrightarrow> (\<exists>i<uuid_count w. k = uuid_source w i)"
      and "db w1 = (db w)(u \<mapsto> r')" and "uuid_source w1 = uuid_source w"
      and "uuid_count w1 = uuid_count w"
  shows "keys_issued w1"
  using assms unfolding keys_issued_def
  by (metis fun_upd_apply option.inject)

lemma keys_issued_draw:
  "keys_issued w \<Longrightarrow> keys_issued (w\<lparr>uuid_count := Suc (uuid_count w)\<rparr>)"
  unfolding keys_issued_def by simp (meson less_Suc_eq)


lemma Files_getByUuid_extends: "Files_getByUuid u w = (res, w1) \<Longrightarrow> extends w w1"
  by (drule Files_getByUuid_facts) (simp add: extends_same_store)

lemma deleteFile_extends: "deleteFile p w = (res, w1) \<Longrightarrow> extends w w1"
  by (drule deleteFile_facts) (simp add: extends_same_store)

lemma writeFile_extends: "writeFile p x w = (res, w1) \<Longrightarrow> extends w w1"
  by (drule writeFile_facts) (simp add: extends_same_store)

lemma getNode_extends: "getNode wg u w = (res, w1) \<Longrightarrow> extends w w1"
  by (drule getNode_facts) (simp add: extends_same_store)

lemma downloadDocument_extends: "downloadDocument wg u w = (res, w1) \<Longrightarrow> extends w w1"
  by (drule downloadDocument_facts) (simp add: extends_same_store)

lemma publish_extends: "extends w (publish t x w)"
  by (simp add: publish_def extends_same_store)

lemma uuidV4_extends: "uuidV4 w = (k, w1) \<Longrightarrow> extends w w1"
  by (auto simp: uuidV4_def extends_def keys_issued_draw)

lemma Files_updateByUuid_extends:
  assumes "Files_updateByUuid u upd w = (res, w1)"
      and "\<forall>k. upd_key upd = Some k \<longrightarrow> (\<exists>i<uuid_count w. k = uuid_source w i)"
  shows "extends w w1"
proof -
  from assms(1) have f: "uuid_source w1 = uuid_source w" "uuid_count w1 = uuid_count w"
    and d: "db w1 = db w \<or> (\<exists>r. db w u = Some r \<and> db w1 = (db w)(u \<mapsto> apply_update upd r))"
    by (auto dest!: Files_updateByUuid_facts split: option.splits)
  from d show ?thesis
  proof
    assume "db w1 = db w"
    with f show ?thesis by (simp add: extends_same_store)
  next
    assume "\<exists>r. db w u = Some r \<and> db w1 = (db w)(u \<mapsto> apply_update upd r)"
    then obtain r where r: "db w u = Some r" "db w1 = (db w)(u \<mapsto> apply_update upd r)"
      by blast
    have k: "\<forall>k. key (apply_update upd r) = Some k \<longrightarrow>
               (key r = Some k \<or> (\<exists>i<uuid_count w. k = uuid_source w i))"
      using assms(2) by (auto simp: apply_update_def split: option.splits)
    have "keys_issued w \<longrightarrow> keys_issued w1"
      using keys_issued_update [OF _ r(1) k r(2) f] by blast
    with r f show ?thesis by (auto simp: extends_def)
  qed
qed

lemma Files_create_extends:
  assumes "Files_create d w = (res, w1)"
      and "\<forall>k. key d = Some k \<longrightarrow> (\<exists>i<uuid_count w. k = uuid_source w i)"
  shows "extends w w1"
proof -
  from assms(1) have f: "uuid_source w1 = uuid_source w" "uuid_count w1 = uuid_count w"
    and d: "db w1 = db w \<or> db w1 = (db w)(uuid d \<mapsto> d)"
    by (auto dest!: Files_create_facts split: option.splits)
  from d show ?thesis
  proof
    assume "db w1 = db w"
    with f show ?thesis by (simp add: extends_same_store)
  next
    assume r: "db w1 = (db w)(uuid d \<mapsto> d)"
    have "keys_issued w \<longrightarrow> keys_issued w1"
      using keys_issued_insert [OF _ assms(2) r f] by blast
    with r f show ?thesis by (auto simp: extends_def)
  qed
qed

lemma load_extends: "load this w = (res, this', w') \<Longrightarrow> extends w w'"
  by (auto simp: load_def split: prod.splits sum.splits option.splits
           dest: Files_getByUuid_extends)

lemma populateMetadata_extends:
  "populateMetadata h this w = (res, this', w') \<Longrightarrow>
     extends w w' \<and> uuid this' = uuid this \<and> filePath this' = filePath this \<and>
     published w' = published w"
  by (auto simp: populateMetadata_def Let_def extends_same_store
           split: prod.splits sum.splits if_splits dest!: getNode_facts)

lemma setState_extends:
  assumes "setState s this w = (res, this', w')"
  shows "extends w w' \<and> uuid this' = uuid this \<and> filePath this' = filePath this \<and>
         published w' = published w"
proof -
  have id: "uuid this' = uuid this \<and> filePath this' = filePath this \<and>
            published w' = published w"
    using assms
    by (auto simp: setState_def Let_def split: prod.splits sum.splits option.splits
             dest!: Files_getByUuid_facts Files_updateByUuid_facts Files_create_facts
                    uuidV4_facts)
  obtain r1 w1 where g: "Files_getByUuid (uuid this) w = (r1, w1)"
    by (cases "Files_getByUuid (uuid this) w")
  have e1: "extends w w1" using g by (rule Files_getByUuid_extends)
  have "extends w1 w'"
  proof (cases r1)
    case (Inl e)
    with assms g show ?thesis by (auto simp: setState_def Let_def extends_refl)
  next
    case (Inr found)
    show ?thesis
    proof (cases found)
      case (Some document)
      obtain r2 w2 where u: "Files_updateByUuid (uuid this)
          \<lparr>upd_state = Some s, upd_key = None\<rparr> w1 = (r2, w2)"
        by (cases "Files_updateByUuid (uuid this) \<lparr>upd_state = Some s, upd_key = None\<rparr> w1")
      have "extends w1 w2" using u by (rule Files_updateByUuid_extends) simp
      moreover have "w' = w2"
        using assms g Inr Some u by (auto simp: setState_def Let_def split: sum.splits)
      ultimately show ?thesis by simp
    next
      case None
      obtain k w2 where v: "uuidV4 w1 = (k, w2)" by (cases "uuidV4 w1")
      obtain r3 w3 where c: "Files_create (this\<lparr>state := Some s, key := Some k\<rparr>) w2 = (r3, w3)"
        by (cases "Files_create (this\<lparr>state := Some s, key := Some k\<rparr>) w2")
      have "extends w1 w2" using v by (rule uuidV4_extends)
      moreover have "extends w2 w3"
        using v by (intro Files_create_extends [OF c]) (auto simp: uuidV4_def)
      moreover have "w' = w3"
        using assms g Inr None v c by (auto simp: setState_def Let_def split: sum.splits)
      ultimately show ?thesis by (auto intro: extends_trans)
    qed
  qed
  with e1 id show ?thesis by (auto intro: extends_trans)
qed

lemma remove_extends:
  assumes "remove this w = (res, this', w')"
  shows "extends w w' \<and> this' = this \<and> published w' = published w"
proof -
  have id: "this' = this \<and> published w' = published w"
    using assms
    by (auto simp: remove_def split: prod.splits sum.splits
             dest!: Files_updateByUuid_facts deleteFile_facts uuidV4_facts)
  obtain k w1 where v: "uuidV4 w = (k, w1)" by (cases "uuidV4 w")
  obtain r2 w2 where u: "Files_updateByUuid (uuid this)
      \<lparr>upd_state = Some Removed, upd_key = Some k\<rparr> w1 = (r2, w2)"
    by (cases "Files_updateByUuid (uuid this) \<lparr>upd_state = Some Removed, upd_key = Some k\<rparr> w1")
  have e1: "extends w w1" using v by (rule uuidV4_extends)
  have e2: "extends w1 w2"
    using v by (intro Files_updateByUuid_extends [OF u]) (auto simp: uuidV4_def)
  have "extends w2 w'"
    using assms v u
    by (auto simp: remove_def extends_refl split: prod.splits sum.splits dest: deleteFile_extends)
  with e1 e2 id show ?thesis by (auto intro: extends_trans)
qed


lemma save_try_extends:
  assumes "save_try h this w = (res, this', w')"
  shows "extends w w' \<and> uuid this' = uuid this \<and> filePath this' = filePath this \<and>
         (res \<noteq> Inr () \<longrightarrow> published w' = published w)"
proof -
  obtain r1 w1 where a: "downloadDocument (workGroup this) (uuid this) w = (r1, w1)"
    by (cases "downloadDocument (workGroup this) (uuid this) w")
  have e1: "extends w w1" "published w1 = published w"
    using a by (auto dest: downloadDocument_extends downloadDocument_facts)
  show ?thesis
  proof (cases r1)
    case (Inl e)
    with assms a e1 show ?thesis by (auto simp: save_try_def)
  next
    case (Inr fileData)
    obtain r2 w2 where b: "writeFile (filePath this) fileData w1 = (r2, w2)"
      by (cases "writeFile (filePath this) fileData w1")
    have e2: "extends w w2" "published w2 = published w"
      using b e1 by (auto dest: writeFile_extends writeFile_facts intro: extends_trans)
    show ?thesis
    proof (cases r2)
      case (Inl e)
      with assms a b e2 \<open>r1 = Inr fileData\<close> show ?thesis by (auto simp: save_try_def)
    next
      case r2: (Inr u2)
      obtain r3 this3 w3 where c: "setState Downloaded this w2 = (r3, this3, w3)"
        by (cases "setState Downloaded this w2")
      have e3: "extends w w3" "published w3 = published w" "uuid this3 = uuid this"
        "filePath this3 = filePath this"
        using setState_extends [OF c] e2 by (auto intro: extends_trans)
      show ?thesis
      proof (cases r3)
        case (Inl e)
        with assms a b c e3 r2 \<open>r1 = Inr fileData\<close> show ?thesis
          by (auto simp: save_try_def)
      next
        case r3: (Inr u3)
        obtain r4 this4 w4 where d: "populateMetadata h this3 w3 = (r4, this4, w4)"
          by (cases "populateMetadata h this3 w3")
        have e4: "extends w w4" "published w4 = published w" "uuid this4 = uuid this"
          "filePath this4 = filePath this"
          using populateMetadata_extends [OF d] e3 by (auto intro: extends_trans)
        show ?thesis
        proof (cases r4)
          case (Inl e)
          with assms a b c d e4 r2 r3 \<open>r1 = Inr fileData\<close> show ?thesis
            by (auto simp: save_try_def)
        next
          case r4: (Inr u4)
          have "w' = publish DOCUMENT_DOWNLOADED (DocumentDownloaded this4) w4"
            and "this' = this4" and "res = Inr ()"
            using assms a b c d r2 r3 r4 \<open>r1 = Inr fileData\<close> by (auto simp: save_try_def)
          with e4 show ?thesis
            by (auto intro: extends_trans [OF _ publish_extends])
        qed
      qed
    qed
  qed
qed

lemma save_extends:
  assumes "save h this w = (res, this', w')"
  shows "extends w w'"
proof -
  obtain r1 this1 w1 where a: "save_try h this w = (r1, this1, w1)"
    by (cases "save_try h this w")
  have e1: "extends w w1" using save_try_extends [OF a] by simp
  show ?thesis
  proof (cases r1)
    case (Inr u)
    with assms a e1 show ?thesis by (simp add: save_def)
  next
    case (Inl error)
    obtain r2 this2 w2 where b: "remove this1 w1 = (r2, this2, w2)"
      by (cases "remove this1 w1")
    have e2: "extends w w2" using remove_extends [OF b] e1 by (auto intro: extends_trans)
    show ?thesis
    proof (cases r2)
      case Inl
      with assms a b e2 \<open>r1 = Inl error\<close> show ?thesis by (simp add: save_def)
    next
      case Inr
      with assms a b \<open>r1 = Inl error\<close>
      have "w' = publish DOCUMENT_DOWNLOAD_FAILED (DocumentDownloadFailed this2 error) w2"
        by (auto simp: save_def)
      with e2 show ?thesis by (auto intro: extends_trans [OF _ publish_extends])
    qed
  qed
qed

lemma run_op_extends: "extends w (snd (snd (run_op h op this w)))"
proof (cases op)
  case Load
  then show ?thesis using load_extends [of this w] by (cases "load this w") auto
next
  case (SetState s)
  then show ?thesis using setState_extends [of s this w] by (cases "setState s this w") auto
next
  case Remove
  then show ?thesis using remove_extends [of this w] by (cases "remove this w") auto
next
  case Save
  then show ?thesis using save_extends [of h this w] by (cases "save h this w") auto
next
  case PopulateMetadata
  then show ?thesis
    using populateMetadata_extends [of h this w] by (cases "populateMetadata h this w") auto
qed

lemma history_extends:
  "w' \<in> set (history h ops w) \<Longrightarrow> extends w w' \<and> extends w' (last (history h ops w))"
proof (induction ops arbitrary: w w')
  case Nil
  then show ?case by (simp add: extends_refl)
next
  case (Cons x ops)
  obtain op this where x: "x = (op, this)" by (cases x)
  let ?w1 = "snd (snd (run_op h op this w))"
  have step: "extends w ?w1" by (rule run_op_extends)
  have ne: "history h ops ?w1 \<noteq> []" by (cases ops) auto
  have lst: "last (history h (x # ops) w) = last (history h ops ?w1)"
    using x ne by simp
  have hd_in: "?w1 \<in> set (history h ops ?w1)" by (cases ops) auto
  from Cons.prems x have "w' = w \<or> w' \<in> set (history h ops ?w1)" by simp
  then show ?case
  proof
    assume "w' = w"
    moreover have "extends ?w1 (last (history h ops ?w1))"
      using Cons.IH [OF hd_in] by simp
    ultimately show ?thesis using step lst by (auto intro: extends_refl extends_trans)
  next
    assume "w' \<in> set (history h ops ?w1)"
    from Cons.IH [OF this] step lst show ?thesis by (auto intro: extends_trans)
  qed
qed

text \<open>What a \<open>remove\<close> that returns has done.\<close>

lemma remove_returns:
  assumes "remove this w = (Inr (), this', w')"
  shows "this' = this \<and> fs w' (filePath this) = None \<and> published w' = published w \<and>
         (\<forall>r. db w (uuid this) = Some r \<longrightarrow>
            db w' (uuid this) =
              Some (r\<lparr>state := Some Removed, key := Some (uuid_source w (uuid_count w))\<rparr>))"
  using assms
  by (auto simp: remove_def apply_update_def split: prod.splits sum.splits option.splits
           dest!: Files_updateByUuid_facts deleteFile_facts uuidV4_facts)




section \<open>The calls that the hardened operations issue\<close>

lemma setState_calls:
  assumes "setState s this w = (res, this', w')"
  shows "uuid this' = uuid this \<and> workGroup this' = workGroup this \<and>
         filePath this' = filePath this \<and> published w' = published w \<and>
         (\<exists>oc. (calls w' = calls w @ [(FilesGetByUuid (uuid this), oc)] \<and> oc \<noteq> Returns \<and>
                res \<noteq> Inr ())
             \<or> (\<exists>c. calls w' = calls w @ [(FilesGetByUuid (uuid this), Returns), (c, oc)] \<and>
                    sets_state s (c, oc) \<and> (s \<noteq> Downloading \<longrightarrow> \<not> sets_state Downloading (c, oc)) \<and>
                    (res = Inr ()) = (oc = Returns)))"
  using assms
  by (auto simp: setState_def Let_def
           split: prod.splits sum.splits option.splits
           dest!: Files_getByUuid_facts Files_updateByUuid_facts Files_create_facts uuidV4_facts)

lemma populateMetadata_calls:
  assumes "populateMetadata h this w = (res, this', w')"
  shows "published w' = published w \<and>
         (\<exists>oc. calls w' = calls w @ [(GetNode (workGroup this) (uuid this), oc)] \<and>
               (res = Inr ()) = (oc = Returns))"
  using assms
  by (auto simp: populateMetadata_def Let_def
           split: prod.splits sum.splits option.splits if_splits
           dest!: getNode_facts)

lemma remove_calls:
  assumes "remove this w = (res, this', w')"
  shows "\<exists>es. calls w' = calls w @ es \<and> published w' = published w \<and>
              \<not> list_ex (sets_state Downloading) es \<and> \<not> list_ex (sets_state Downloaded) es \<and>
              (Publish DOCUMENT_DOWNLOADED, Returns) \<notin> set es"
  using assms
  by (auto simp: remove_def split: prod.splits sum.splits option.splits
           dest!: Files_updateByUuid_facts deleteFile_facts uuidV4_facts)

lemma save_try_calls:
  assumes "save_try h this w = (res, this', w')"
  shows "\<exists>oc es. calls w' = calls w @ (DownloadDocument (workGroup this) (uuid this), oc) # es \<and>
           only_after (sets_state Downloaded) downloaded_bytes
             ((DownloadDocument (workGroup this) (uuid this), oc) # es) \<and>
           only_after (sets_state Downloaded) written
             ((DownloadDocument (workGroup this) (uuid this), oc) # es) \<and>
           \<not> list_ex (sets_state Downloading) es \<and>
           (if res = Inr ()
            then oc = Returns \<and>
                 (\<exists>c. es = [(WriteFile (filePath this), Returns),
                             (FilesGetByUuid (uuid this), Returns), (c, Returns),
                             (GetNode (workGroup this) (uuid this), Returns),
                             (Publish DOCUMENT_DOWNLOADED, Returns)] \<and>
                      sets_state Downloaded (c, Returns)) \<and>
                 published w' = published w @ [DocumentDownloaded this']
            else (Publish DOCUMENT_DOWNLOADED, Returns) \<notin> set es \<and> published w' = published w)"
  using assms
  by (auto simp: save_try_def publish_def
           split: prod.splits sum.splits option.splits
           dest!: downloadDocument_facts writeFile_facts setState_calls populateMetadata_calls)


lemma only_after_none: "\<not> list_ex P ys \<Longrightarrow> only_after P Q ys"
  by (induction ys) auto

lemma only_after_append:
  "only_after P Q xs \<Longrightarrow> \<not> list_ex P ys \<Longrightarrow> only_after P Q (xs @ ys)"
  by (induction xs) (auto simp: only_after_none)

section \<open>Claims\<close>

text \<open>
  C5. \<open>isDownloaded\<close> is true if and only if the cached file exists at the
  document's path and the document's state is \<open>downloaded\<close>; the file alone
  does not suffice, nor does the state alone. The method is the same in both
  revisions.
\<close>

theorem isDownloaded_iff:
  "(isDownloaded this w \<longleftrightarrow> fs w (filePath this) \<noteq> None \<and> state this = Some Downloaded) \<and>
   (\<exists>this' w'. fs w' (filePath this') \<noteq> None \<and> \<not> isDownloaded this' w') \<and>
   (\<exists>this' w'. state this' = Some Downloaded \<and> \<not> isDownloaded this' w')"
proof (intro conjI)
  show "isDownloaded this w \<longleftrightarrow> fs w (filePath this) \<noteq> None \<and> state this = Some Downloaded"
    by (simp add: isDownloaded_def existsSync_def)
  have "fs (stored Removed) (filePath doc1) \<noteq> None \<and> \<not> isDownloaded doc1 (stored Removed)"
    by (simp add: isDownloaded_def existsSync_def stored_def world0_def doc1_def)
  then show "\<exists>this' w'. fs w' (filePath this') \<noteq> None \<and> \<not> isDownloaded this' w'"
    by blast
  have "state (doc1\<lparr>state := Some Downloaded\<rparr>) = Some Downloaded \<and>
        \<not> isDownloaded (doc1\<lparr>state := Some Downloaded\<rparr>) world0"
    by (simp add: isDownloaded_def existsSync_def world0_def doc1_def)
  then show "\<exists>this' w'. state this' = Some Downloaded \<and> \<not> isDownloaded this' w'"
    by blast
qed

theorem isDownloaded_iff_witness:
  "isDownloaded (doc1\<lparr>state := Some Downloaded\<rparr>) (stored Downloaded) \<and>
   \<not> isDownloaded (doc1\<lparr>state := Some Removed\<rparr>) (stored Downloaded) \<and>
   \<not> isDownloaded (doc1\<lparr>state := Some Downloaded\<rparr>) world0"
  using isDownloaded_iff [of "doc1\<lparr>state := Some Downloaded\<rparr>" "stored Downloaded"]
        isDownloaded_iff [of "doc1\<lparr>state := Some Removed\<rparr>" "stored Downloaded"]
        isDownloaded_iff [of "doc1\<lparr>state := Some Downloaded\<rparr>" world0]
  by (simp add: stored_def world0_def doc1_def)

text \<open>
  After a \<open>load\<close> that found the record, the state of the object is the stored
  state, so the predicate speaks of the stored state.
\<close>

lemma isDownloaded_after_load:
  assumes "load this w = (Inr (), this', w')" and "db w (uuid this) = Some r"
  shows "isDownloaded this' w' \<longleftrightarrow> fs w (filePath this) \<noteq> None \<and> state r = Some Downloaded"
  using assms
  by (auto simp: load_def isDownloaded_def existsSync_def
           split: prod.splits sum.splits option.splits dest!: Files_getByUuid_facts)

text \<open>
  C10. In both revisions \<open>setState(s)\<close> assigns \<open>s\<close> to the state of the object
  before it calls the store: the object reports \<open>s\<close> whatever the store calls do,
  and when one of them throws, the store is as it was before.
\<close>

theorem setState_in_memory_first:
  "(setState s this w = (res, this', w') \<longrightarrow>
      state this' = Some s \<and> (res \<noteq> Inr () \<longrightarrow> db w' = db w)) \<and>
   (simple_setState s this w = (res, this', w') \<longrightarrow>
      state this' = Some s \<and> (res \<noteq> Inr () \<longrightarrow> db w' = db w))"
  by (auto simp: setState_def simple_setState_def Let_def
           split: prod.splits sum.splits option.splits
           dest!: Files_getByUuid_facts Files_updateByUuid_facts Files_create_facts uuidV4_facts)

theorem setState_in_memory_first_witness:
  "fst (setState Downloaded doc1 (stored Downloading\<lparr>fate := [Returns, Throws (Error ''db down'')]\<rparr>))
     = Inl (Error ''db down'') \<and>
   state (fst (snd (setState Downloaded doc1
      (stored Downloading\<lparr>fate := [Returns, Throws (Error ''db down'')]\<rparr>)))) = Some Downloaded \<and>
   db (snd (snd (setState Downloaded doc1
      (stored Downloading\<lparr>fate := [Returns, Throws (Error ''db down'')]\<rparr>)))) = db (stored Downloading)"
  using setState_in_memory_first [of Downloaded doc1
      "stored Downloading\<lparr>fate := [Returns, Throws (Error ''db down'')]\<rparr>"
      "fst (setState Downloaded doc1 (stored Downloading\<lparr>fate := [Returns, Throws (Error ''db down'')]\<rparr>))"
      "fst (snd (setState Downloaded doc1 (stored Downloading\<lparr>fate := [Returns, Throws (Error ''db down'')]\<rparr>)))"
      "snd (snd (setState Downloaded doc1 (stored Downloading\<lparr>fate := [Returns, Throws (Error ''db down'')]\<rparr>)))"]
  by (simp add: setState_def Files_getByUuid_def Files_updateByUuid_def attempt_def stored_def
        world0_def doc1_def)

text \<open>
  C8. \<open>setState\<close> of the hardened revision on a document whose record exists
  passes only \<open>{ state }\<close> to the store: the record keeps its key and every other
  field, the object keeps its key, and no key is drawn. On a document without a
  record it draws the next key of the generator, assigns it to the object and
  stores the object with the new state.
\<close>

theorem setState_frame:
  assumes "setState s this w = (res, this', w')"
  shows "(\<forall>r. db w (uuid this) = Some r \<longrightarrow>
            key this' = key this \<and> uuid_count w' = uuid_count w \<and>
            (res = Inr () \<longrightarrow> db w' = (db w)(uuid this \<mapsto> r\<lparr>state := Some s\<rparr>)) \<and>
            (res \<noteq> Inr () \<longrightarrow> db w' = db w)) \<and>
         (db w (uuid this) = None \<and> res = Inr () \<longrightarrow>
            db w' = (db w)(uuid this \<mapsto> this') \<and> state this' = Some s \<and>
            key this' = Some (uuid_source w (uuid_count w)) \<and>
            uuid_count w' = Suc (uuid_count w))"
  using assms
  by (auto simp: setState_def Let_def apply_update_def
           split: prod.splits sum.splits option.splits
           dest!: Files_getByUuid_facts Files_updateByUuid_facts Files_create_facts uuidV4_facts)

theorem setState_frame_witness:
  "db (snd (snd (setState Downloaded doc1 (stored Removed)))) ''doc-1''
     = Some (doc1\<lparr>state := Some Downloaded, key := Some ''k''\<rparr>) \<and>
   uuid_count (snd (snd (setState Downloaded doc1 (stored Removed)))) = 1 \<and>
   db (snd (snd (setState Downloading doc1 world0))) ''doc-1''
     = Some (doc1\<lparr>state := Some Downloading, key := Some ''k''\<rparr>) \<and>
   uuid_count (snd (snd (setState Downloading doc1 world0))) = 1"
  using setState_frame [of Downloaded doc1 "stored Removed"
          "fst (setState Downloaded doc1 (stored Removed))"
          "fst (snd (setState Downloaded doc1 (stored Removed)))"
          "snd (snd (setState Downloaded doc1 (stored Removed)))"]
        setState_frame [of Downloading doc1 world0
          "fst (setState Downloading doc1 world0)"
          "fst (snd (setState Downloading doc1 world0))"
          "snd (snd (setState Downloading doc1 world0))"]
  by (simp add: setState_def Files_getByUuid_def Files_updateByUuid_def Files_create_def
        uuidV4_def attempt_def apply_update_def stored_def world0_def doc1_def keygen_def Let_def)

text \<open>
  C3, as stated: no execution of \<open>remove\<close> deletes the cached bytes before
  the rotated key is durably recorded. \<open>remove\<close> of the simpler revision
  deletes the file and never writes a state \<open>removed\<close> nor draws a key; and
  \<open>remove\<close> of the hardened revision, on a document that has a cached file
  and no record, returns with the file deleted and nothing recorded.
\<close>

theorem remove_deletes_without_rotation:
  "fst (simple_remove doc1 (stored Downloaded)) = Inr () \<and>
   fs (stored Downloaded) ''files/doc-1'' = Some ''old bytes'' \<and>
   fs (snd (snd (simple_remove doc1 (stored Downloaded)))) ''files/doc-1'' = None \<and>
   \<not> list_ex (sets_state Removed)
        (new_calls (stored Downloaded) (snd (snd (simple_remove doc1 (stored Downloaded))))) \<and>
   uuid_count (snd (snd (simple_remove doc1 (stored Downloaded)))) = uuid_count (stored Downloaded) \<and>
   fst (remove doc1 (world0\<lparr>fs := [''files/doc-1'' \<mapsto> ''old bytes'']\<rparr>)) = Inr () \<and>
   fs (snd (snd (remove doc1 (world0\<lparr>fs := [''files/doc-1'' \<mapsto> ''old bytes'']\<rparr>))))
      ''files/doc-1'' = None \<and>
   db (snd (snd (remove doc1 (world0\<lparr>fs := [''files/doc-1'' \<mapsto> ''old bytes'']\<rparr>))))
      ''doc-1'' = None"
  by (simp add: simple_remove_def remove_def Files_removeByUuid_def Files_updateByUuid_def
        deleteFile_def uuidV4_def attempt_def new_calls_def stored_def world0_def doc1_def)

text \<open>
  C3, amended. In the hardened revision every execution of \<open>remove\<close> asks the
  store first to set the state \<open>removed\<close> and a key fresh from the generator,
  and issues \<open>deleteFile\<close> only after that call has returned: either the update
  throws, and then no deletion is issued and the cache is untouched, or the
  update has returned before the deletion is issued. In the second case a
  document that has a record has it in state \<open>removed\<close> with the new key, and a
  document that has no record still has none. In the simpler revision \<open>remove\<close>
  rotates no key: it asks the store to delete the record, draws nothing from the
  generator, and issues \<open>deleteFile\<close> only after that call has returned.
\<close>

theorem remove_store_call_before_delete:
  "(remove this w = (res, this', w') \<longrightarrow>
      (\<exists>oc. (thrown oc \<noteq> None \<and> fs w' = fs w \<and> db w' = db w \<and>
               new_calls w w' =
                 [(FilesUpdateByUuid (uuid this)
                     \<lparr>upd_state = Some Removed, upd_key = Some (uuid_source w (uuid_count w))\<rparr>, oc)])
             \<or> (new_calls w w' =
                 [(FilesUpdateByUuid (uuid this)
                     \<lparr>upd_state = Some Removed, upd_key = Some (uuid_source w (uuid_count w))\<rparr>, Returns),
                  (DeleteFile (filePath this), oc)] \<and>
                (\<forall>r. db w (uuid this) = Some r \<longrightarrow>
                   db w' (uuid this) =
                     Some (r\<lparr>state := Some Removed, key := Some (uuid_source w (uuid_count w))\<rparr>)) \<and>
                (db w (uuid this) = None \<longrightarrow> db w' = db w) \<and>
                (fs w' = fs w \<or> fs w' = (fs w)(filePath this := None))))) \<and>
   (simple_remove this w = (res, this', w') \<longrightarrow>
      uuid_count w' = uuid_count w \<and>
      (\<exists>oc. (thrown oc \<noteq> None \<and> fs w' = fs w \<and> db w' = db w \<and>
               new_calls w w' = [(FilesRemoveByUuid (uuid this), oc)])
             \<or> (new_calls w w' =
                   [(FilesRemoveByUuid (uuid this), Returns), (DeleteFile (filePath this), oc)] \<and>
                 db w' = (db w)(uuid this := None) \<and>
                 (fs w' = fs w \<or> fs w' = (fs w)(filePath this := None)))))"
proof (rule conjI; rule impI)
  assume "remove this w = (res, this', w')"
  then show "\<exists>oc. (thrown oc \<noteq> None \<and> fs w' = fs w \<and> db w' = db w \<and>
               new_calls w w' =
                 [(FilesUpdateByUuid (uuid this)
                     \<lparr>upd_state = Some Removed, upd_key = Some (uuid_source w (uuid_count w))\<rparr>, oc)])
             \<or> (new_calls w w' =
                 [(FilesUpdateByUuid (uuid this)
                     \<lparr>upd_state = Some Removed, upd_key = Some (uuid_source w (uuid_count w))\<rparr>, Returns),
                  (DeleteFile (filePath this), oc)] \<and>
                (\<forall>r. db w (uuid this) = Some r \<longrightarrow>
                   db w' (uuid this) =
                     Some (r\<lparr>state := Some Removed, key := Some (uuid_source w (uuid_count w))\<rparr>)) \<and>
                (db w (uuid this) = None \<longrightarrow> db w' = db w) \<and>
                (fs w' = fs w \<or> fs w' = (fs w)(filePath this := None)))"
    by (auto simp: remove_def Let_def apply_update_def new_calls_def
             split: prod.splits sum.splits option.splits
             dest!: Files_updateByUuid_facts deleteFile_facts uuidV4_facts)
next
  assume "simple_remove this w = (res, this', w')"
  then show "uuid_count w' = uuid_count w \<and>
      (\<exists>oc. (thrown oc \<noteq> None \<and> fs w' = fs w \<and> db w' = db w \<and>
               new_calls w w' = [(FilesRemoveByUuid (uuid this), oc)])
             \<or> (new_calls w w' =
                   [(FilesRemoveByUuid (uuid this), Returns), (DeleteFile (filePath this), oc)] \<and>
                 db w' = (db w)(uuid this := None) \<and>
                 (fs w' = fs w \<or> fs w' = (fs w)(filePath this := None))))"
    by (auto simp: simple_remove_def new_calls_def
             split: prod.splits sum.splits option.splits
             dest!: Files_removeByUuid_facts deleteFile_facts)
qed

theorem remove_store_call_before_delete_witness:
  "new_calls (stored Downloaded) (snd (snd (remove doc1 (stored Downloaded)))) =
     [(FilesUpdateByUuid ''doc-1'' \<lparr>upd_state = Some Removed, upd_key = Some ''kk''\<rparr>, Returns),
      (DeleteFile ''files/doc-1'', Returns)] \<and>
   db (snd (snd (remove doc1 (stored Downloaded)))) ''doc-1''
     = Some (doc1\<lparr>state := Some Removed, key := Some ''kk''\<rparr>) \<and>
   fs (snd (snd (remove doc1 (stored Downloaded)))) ''files/doc-1'' = None \<and>
   new_calls (stored Downloaded\<lparr>fate := [Throws (Error ''db down'')]\<rparr>)
     (snd (snd (remove doc1 (stored Downloaded\<lparr>fate := [Throws (Error ''db down'')]\<rparr>)))) =
     [(FilesUpdateByUuid ''doc-1'' \<lparr>upd_state = Some Removed, upd_key = Some ''kk''\<rparr>,
       Throws (Error ''db down''))] \<and>
   fs (snd (snd (remove doc1 (stored Downloaded\<lparr>fate := [Throws (Error ''db down'')]\<rparr>))))
      ''files/doc-1'' = Some ''old bytes'' \<and>
   new_calls (stored Downloaded) (snd (snd (simple_remove doc1 (stored Downloaded)))) =
     [(FilesRemoveByUuid ''doc-1'', Returns), (DeleteFile ''files/doc-1'', Returns)]"
  using remove_store_call_before_delete [of doc1 "stored Downloaded"
          "fst (remove doc1 (stored Downloaded))"
          "fst (snd (remove doc1 (stored Downloaded)))"
          "snd (snd (remove doc1 (stored Downloaded)))"]
        remove_store_call_before_delete [of doc1
          "stored Downloaded\<lparr>fate := [Throws (Error ''db down'')]\<rparr>"
          "fst (remove doc1 (stored Downloaded\<lparr>fate := [Throws (Error ''db down'')]\<rparr>))"
          "fst (snd (remove doc1 (stored Downloaded\<lparr>fate := [Throws (Error ''db down'')]\<rparr>)))"
          "snd (snd (remove doc1 (stored Downloaded\<lparr>fate := [Throws (Error ''db down'')]\<rparr>)))"]
        remove_store_call_before_delete [of doc1 "stored Downloaded"
          "fst (simple_remove doc1 (stored Downloaded))"
          "fst (snd (simple_remove doc1 (stored Downloaded)))"
          "snd (snd (simple_remove doc1 (stored Downloaded)))"]
  by (simp add: remove_def simple_remove_def Files_updateByUuid_def Files_removeByUuid_def
        deleteFile_def new_calls_def uuidV4_def attempt_def apply_update_def stored_def
        world0_def doc1_def keygen_def)

text \<open>
  C1, as stated: building the payload of a document whose state is not
  \<open>downloaded\<close> fails. It does not: for a document in state \<open>removed\<close> the
  method returns a payload that carries the document's key.
\<close>

theorem payload_built_for_removed_document:
  "state (doc1\<lparr>state := Some Removed, key := Some ''k''\<rparr>) \<noteq> Some Downloaded \<and>
   pd_key (p_document (body (buildDocumentserverPayload config0
      (doc1\<lparr>state := Some Removed, key := Some ''k''\<rparr>)))) = Some ''k''"
  by (simp add: buildDocumentserverPayload_def config0_def doc1_def)

text \<open>
  C1, amended. \<open>buildDocumentserverPayload\<close> does not read the state: for every
  document, in whatever state, it returns a payload whose document key is the
  current key of the object, with a token exactly when signing is enabled.
  Keeping the payload from documents that are not downloaded is left to the caller.
\<close>

theorem payload_embeds_key_in_any_state:
  "pd_key (p_document (body (buildDocumentserverPayload cfg this))) = key this \<and>
   (token (buildDocumentserverPayload cfg this) = None) = (\<not> enable (signature_browser cfg)) \<and>
   buildDocumentserverPayload cfg (this\<lparr>state := st\<rparr>) = buildDocumentserverPayload cfg this"
  by (simp add: buildDocumentserverPayload_def Let_def)

theorem payload_embeds_key_in_any_state_witness:
  "pd_key (p_document (body (buildDocumentserverPayload config0
      (doc1\<lparr>state := Some Downloading, key := Some ''k''\<rparr>)))) = Some ''k'' \<and>
   token (buildDocumentserverPayload config0 (doc1\<lparr>state := Some Downloading, key := Some ''k''\<rparr>)) = None"
  using payload_embeds_key_in_any_state [of config0 "doc1\<lparr>state := Some Downloading, key := Some ''k''\<rparr>"]
  by (simp add: config0_def doc1_def)

text \<open>
  C9, as stated: every \<open>populateMetadata\<close> call answers a 404 of the gateway with
  the message \<open>Document not found\<close>. The simpler revision has no handler around
  \<open>getNode\<close> and throws the raw error of the client.
\<close>

theorem simple_populateMetadata_raw_404:
  "fst (simple_populateMetadata helpers0 doc1
          (world0\<lparr>fate := [Throws (ResponseError (Some 404) ''Not Found'')]\<rparr>))
     = Inl (ResponseError (Some 404) ''Not Found'') \<and>
   fst (simple_populateMetadata helpers0 doc1
          (world0\<lparr>fate := [Throws (ResponseError (Some 404) ''Not Found'')]\<rparr>))
     \<noteq> Inl (Error ''Document not found'')"
  by (simp add: simple_populateMetadata_def getNode_def attempt_def world0_def)

text \<open>
  C9, amended. When \<open>getNode\<close> throws, \<open>populateMetadata\<close> of the hardened
  revision throws \<open>Error('Document not found')\<close> if the status of the error's
  response is 404 and the error itself otherwise; \<open>populateMetadata\<close> of the
  simpler revision throws the error itself in every case.
\<close>

theorem populateMetadata_errors:
  assumes "fate w = oc # rest" and "thrown oc = Some error"
  shows "fst (populateMetadata h this w) =
           (if response_status error = Some 404 then Inl (Error ''Document not found'')
            else Inl error) \<and>
         fst (simple_populateMetadata h this w) = Inl error"
  using assms
  by (simp add: populateMetadata_def simple_populateMetadata_def getNode_def attempt_def)

theorem populateMetadata_errors_witness:
  "fst (populateMetadata helpers0 doc1
          (world0\<lparr>fate := [Throws (ResponseError (Some 404) ''Not Found'')]\<rparr>))
     = Inl (Error ''Document not found'') \<and>
   fst (populateMetadata helpers0 doc1
          (world0\<lparr>fate := [Throws (ResponseError (Some 503) ''Unavailable'')]\<rparr>))
     = Inl (ResponseError (Some 503) ''Unavailable'') \<and>
   fst (populateMetadata helpers0 doc1 (world0\<lparr>fate := [Throws (Error ''timeout'')]\<rparr>))
     = Inl (Error ''timeout'')"
  using populateMetadata_errors [of "world0\<lparr>fate := [Throws (ResponseError (Some 404) ''Not Found'')]\<rparr>"
          "Throws (ResponseError (Some 404) ''Not Found'')" "[]" "ResponseError (Some 404) ''Not Found''"
          helpers0 doc1]
        populateMetadata_errors [of "world0\<lparr>fate := [Throws (ResponseError (Some 503) ''Unavailable'')]\<rparr>"
          "Throws (ResponseError (Some 503) ''Unavailable'')" "[]" "ResponseError (Some 503) ''Unavailable''"
          helpers0 doc1]
        populateMetadata_errors [of "world0\<lparr>fate := [Throws (Error ''timeout'')]\<rparr>"
          "Throws (Error ''timeout'')" "[]" "Error ''timeout''" helpers0 doc1]
  by (simp add: world0_def)

text \<open>
  C2. Let the generator never repeat a value, and let every key in the store be
  a key drawn from it. After any sequence of hardened operations, a \<open>remove\<close>
  that returns on a document whose record exists leaves the record in state
  \<open>removed\<close> with a key that differs from the key the record held in every
  world the sequence went through.
\<close>

theorem remove_key_differs_from_all_before:
  assumes gen: "inj (uuid_source w0)"
      and inv: "keys_issued w0"
      and rm: "remove this (last (history h ops w0)) = (Inr (), this', w')"
      and cur: "db (last (history h ops w0)) (uuid this) = Some r"
  shows "\<exists>r'. db w' (uuid this) = Some r' \<and> state r' = Some Removed \<and>
              (\<forall>w_old\<in>set (history h ops w0). \<forall>r_old.
                  db w_old (uuid this) = Some r_old \<longrightarrow> key r' \<noteq> key r_old)"
proof -
  let ?w = "last (history h ops w0)"
  let ?k = "uuid_source ?w (uuid_count ?w)"
  let ?r' = "r\<lparr>state := Some Removed, key := Some ?k\<rparr>"
  have new: "db w' (uuid this) = Some ?r'"
    using remove_returns [OF rm] cur by simp
  have fresh: "key ?r' \<noteq> key r_old"
    if old: "w_old \<in> set (history h ops w0)" "db w_old (uuid this) = Some r_old"
    for w_old r_old
  proof (cases "key r_old")
    case None
    then show ?thesis by simp
  next
    case (Some k)
    from history_extends [OF old(1)]
    have a: "extends w0 w_old" and b: "extends w_old ?w" by simp_all
    from a inv have "keys_issued w_old" and src: "uuid_source w_old = uuid_source w0"
      by (simp_all add: extends_def)
    with old(2) Some obtain i where i: "i < uuid_count w_old" "k = uuid_source w0 i"
      unfolding keys_issued_def by metis
    from b src have c: "uuid_count w_old \<le> uuid_count ?w" "uuid_source ?w = uuid_source w0"
      by (simp_all add: extends_def)
    from i c have "i \<noteq> uuid_count ?w" by simp
    with gen have "uuid_source w0 i \<noteq> uuid_source w0 (uuid_count ?w)"
      by (simp add: inj_eq)
    with i c Some show ?thesis by simp
  qed
  from new fresh show ?thesis by auto
qed

theorem remove_key_differs_from_all_before_witness:
  "map_option key (db (stored Downloading) ''doc-1'') = Some (Some ''k'') \<and>
   map_option key (db (snd (snd (remove doc1
      (last (history helpers0 [(SetState Downloaded, doc1)] (stored Downloading)))))) ''doc-1'')
     = Some (Some ''kk'')"
proof -
  have inv: "keys_issued (stored Downloading)"
    by (auto simp: keys_issued_def stored_def world0_def doc1_def keygen_def split: if_splits)
  have gen: "inj (uuid_source (stored Downloading))"
    by (auto simp: stored_def world0_def inj_def keygen_def replicate_eq_replicate)
  let ?w = "last (history helpers0 [(SetState Downloaded, doc1)] (stored Downloading))"
  have w: "?w = stored Downloaded\<lparr>calls :=
      [(FilesGetByUuid ''doc-1'', Returns),
       (FilesUpdateByUuid ''doc-1'' \<lparr>upd_state = Some Downloaded, upd_key = None\<rparr>, Returns)]\<rparr>"
    by (simp add: setState_def Files_getByUuid_def Files_updateByUuid_def attempt_def
          apply_update_def stored_def world0_def doc1_def Let_def)
  have rm: "remove doc1 ?w = (Inr (), doc1, snd (snd (remove doc1 ?w)))"
    unfolding w
    by (simp add: remove_def Files_updateByUuid_def deleteFile_def uuidV4_def attempt_def
          stored_def world0_def doc1_def)
  have cur: "db ?w (uuid doc1) = Some (doc1\<lparr>state := Some Downloaded, key := Some ''k''\<rparr>)"
    unfolding w by (simp add: stored_def world0_def doc1_def)
  from remove_key_differs_from_all_before [OF gen inv rm cur]
  show ?thesis
    unfolding w
    by (simp add: remove_def Files_updateByUuid_def deleteFile_def uuidV4_def attempt_def
          apply_update_def stored_def world0_def doc1_def keygen_def)
qed

text \<open>
  C6, as stated: no lifecycle operation deletes a record, and \<open>remove\<close> sets the
  state \<open>removed\<close> instead. \<open>remove\<close> of the simpler revision calls
  \<open>Files.removeByUuid\<close>: the record is gone afterwards.
\<close>

theorem simple_remove_deletes_record:
  "db (stored Downloaded) ''doc-1'' \<noteq> None \<and>
   fst (simple_remove doc1 (stored Downloaded)) = Inr () \<and>
   db (snd (snd (simple_remove doc1 (stored Downloaded)))) ''doc-1'' = None"
  by (simp add: simple_remove_def Files_removeByUuid_def deleteFile_def attempt_def
        stored_def world0_def doc1_def)

text \<open>
  C6, amended. In the hardened revision a record that is in the store stays in
  the store through every sequence of operations, and a \<open>remove\<close> that returns
  has changed the state of the record to \<open>removed\<close> and its key to a new one,
  all other fields being as they were. In the simpler revision \<open>remove\<close> deletes
  the record.
\<close>

theorem hardened_operations_keep_record:
  "(\<forall>w'\<in>set (history h ops w). db w u \<noteq> None \<longrightarrow> db w' u \<noteq> None) \<and>
   (\<forall>r. remove this w = (Inr (), this', w') \<and> db w (uuid this) = Some r \<longrightarrow>
      db w' (uuid this) =
        Some (r\<lparr>state := Some Removed, key := Some (uuid_source w (uuid_count w))\<rparr>))"
proof (intro conjI ballI impI allI)
  fix w'
  assume "w' \<in> set (history h ops w)" and "db w u \<noteq> None"
  with history_extends [of w' h ops w] show "db w' u \<noteq> None"
    by (auto simp: extends_def)
next
  fix r
  assume "remove this w = (Inr (), this', w') \<and> db w (uuid this) = Some r"
  then show "db w' (uuid this) =
      Some (r\<lparr>state := Some Removed, key := Some (uuid_source w (uuid_count w))\<rparr>)"
    using remove_returns [of this w this' w'] by simp
qed

theorem hardened_operations_keep_record_witness:
  "db (stored Downloaded) ''doc-1'' \<noteq> None \<and>
   db (snd (snd (remove doc1 (stored Downloaded)))) ''doc-1''
     = Some (doc1\<lparr>state := Some Removed, key := Some ''kk''\<rparr>) \<and>
   db (last (history helpers0 [(Remove, doc1)] (stored Downloaded))) ''doc-1'' \<noteq> None"
  using hardened_operations_keep_record [of helpers0 "[(Remove, doc1)]" "stored Downloaded"
          "''doc-1''" doc1 "fst (snd (remove doc1 (stored Downloaded)))"
          "snd (snd (remove doc1 (stored Downloaded)))"]
  by (simp add: remove_def Files_updateByUuid_def deleteFile_def uuidV4_def attempt_def
        apply_update_def stored_def world0_def doc1_def keygen_def)





text \<open>
  What the comment in the handler of \<open>save\<close> describes: when the store update
  of the rollback throws as well, the record stays as it was, the cached file
  stays, nothing is published, and the caller gets the error of the store.
\<close>

lemma save_rollback_failure_leaves_downloading:
  "fst (save helpers0 doc1
          (stored Downloading\<lparr>fate := [Throws (Error ''timeout''), Throws (Error ''db down'')]\<rparr>))
     = Inl (Error ''db down'') \<and>
   db (snd (snd (save helpers0 doc1
          (stored Downloading\<lparr>fate := [Throws (Error ''timeout''), Throws (Error ''db down'')]\<rparr>))))
      ''doc-1'' = Some (doc1\<lparr>state := Some Downloading, key := Some ''k''\<rparr>) \<and>
   fs (snd (snd (save helpers0 doc1
          (stored Downloading\<lparr>fate := [Throws (Error ''timeout''), Throws (Error ''db down'')]\<rparr>))))
      ''files/doc-1'' = Some ''old bytes'' \<and>
   published (snd (snd (save helpers0 doc1
          (stored Downloading\<lparr>fate := [Throws (Error ''timeout''), Throws (Error ''db down'')]\<rparr>))))
     = []"
  by (simp add: save_def save_try_def downloadDocument_def remove_def Files_updateByUuid_def
        uuidV4_def attempt_def stored_def world0_def doc1_def)

text \<open>
  C7, as stated: the hardened \<open>save\<close> writes the state \<open>downloaded\<close> only
  after the metadata refresh has succeeded. It writes the state before it calls
  \<open>populateMetadata\<close>: in the run where every call returns, the store write is
  issued before \<open>getNode\<close>; and when \<open>getNode\<close> throws and the update of the
  rollback throws too, the record is left in state \<open>downloaded\<close>.
\<close>

theorem save_state_written_before_refresh:
  "\<not> only_after (sets_state Downloaded) refreshed
        (new_calls world0 (snd (snd (save helpers0 doc1 world0)))) \<and>
   fst (save helpers0 doc1 world0) = Inr () \<and>
   fst (save helpers0 doc1 (world0\<lparr>fate :=
      [Returns, Returns, Returns, Returns, Throws (Error ''timeout''), Throws (Error ''db down'')]\<rparr>))
     = Inl (Error ''db down'') \<and>
   db (snd (snd (save helpers0 doc1 (world0\<lparr>fate :=
      [Returns, Returns, Returns, Returns, Throws (Error ''timeout''), Throws (Error ''db down'')]\<rparr>))))
      ''doc-1'' = Some (doc1\<lparr>state := Some Downloaded, key := Some ''k''\<rparr>)"
  by (simp add: save_def save_try_def downloadDocument_def writeFile_def setState_def
        Files_getByUuid_def Files_create_def populateMetadata_def getNode_def remove_def
        Files_updateByUuid_def uuidV4_def attempt_def publish_def isDownloaded_def
        existsSync_def new_calls_def world0_def doc1_def keygen_def Let_def)

text \<open>
  C7, amended. In every execution of the hardened \<open>save\<close> the first call is the
  download; the state \<open>downloaded\<close> is written only after the download and the
  cache write have returned; the state \<open>downloading\<close> is never written. When
  \<open>save\<close> returns, it has issued, in this order, the download, the cache write,
  the store lookup, the store write of \<open>downloaded\<close>, the metadata refresh and,
  last, the success notification, which carries the refreshed object; when it
  throws, no success notification has been published.
\<close>

theorem save_order:
  assumes "save h this w = (res, this', w')"
  shows "(\<exists>oc es. new_calls w w' = (DownloadDocument (workGroup this) (uuid this), oc) # es) \<and>
         only_after (sets_state Downloaded) downloaded_bytes (new_calls w w') \<and>
         only_after (sets_state Downloaded) written (new_calls w w') \<and>
         \<not> list_ex (sets_state Downloading) (new_calls w w') \<and>
         (if res = Inr ()
          then (\<exists>c. new_calls w w' =
                  [(DownloadDocument (workGroup this) (uuid this), Returns),
                   (WriteFile (filePath this), Returns),
                   (FilesGetByUuid (uuid this), Returns), (c, Returns),
                   (GetNode (workGroup this) (uuid this), Returns),
                   (Publish DOCUMENT_DOWNLOADED, Returns)] \<and>
                  sets_state Downloaded (c, Returns)) \<and>
               published w' = published w @ [DocumentDownloaded this']
          else (Publish DOCUMENT_DOWNLOADED, Returns) \<notin> set (new_calls w w'))"
proof -
  obtain r1 this1 w1 where a: "save_try h this w = (r1, this1, w1)"
    by (cases "save_try h this w")
  let ?d = "DownloadDocument (workGroup this) (uuid this)"
  from save_try_calls [OF a] obtain oc es where
    c1: "calls w1 = calls w @ (?d, oc) # es"
    and o1: "only_after (sets_state Downloaded) downloaded_bytes ((?d, oc) # es)"
    and o2: "only_after (sets_state Downloaded) written ((?d, oc) # es)"
    and n1: "\<not> list_ex (sets_state Downloading) es"
    and fin: "if r1 = Inr ()
            then oc = Returns \<and>
                 (\<exists>c. es = [(WriteFile (filePath this), Returns),
                             (FilesGetByUuid (uuid this), Returns), (c, Returns),
                             (GetNode (workGroup this) (uuid this), Returns),
                             (Publish DOCUMENT_DOWNLOADED, Returns)] \<and>
                      sets_state Downloaded (c, Returns)) \<and>
                 published w1 = published w @ [DocumentDownloaded this1]
            else (Publish DOCUMENT_DOWNLOADED, Returns) \<notin> set es \<and> published w1 = published w"
    by blast
  show ?thesis
  proof (cases r1)
    case (Inr u)
    with assms a have "res = Inr ()" "this' = this1" "w' = w1" by (simp_all add: save_def)
    with c1 o1 o2 n1 fin Inr show ?thesis
      by (auto simp: new_calls_def)
  next
    case (Inl error)
    obtain r2 this2 w2 where b: "remove this1 w1 = (r2, this2, w2)"
      by (cases "remove this1 w1")
    from remove_calls [OF b] obtain es2 where
      c2: "calls w2 = calls w1 @ es2"
      and n2: "\<not> list_ex (sets_state Downloading) es2" "\<not> list_ex (sets_state Downloaded) es2"
        "(Publish DOCUMENT_DOWNLOADED, Returns) \<notin> set es2"
      by blast
    have res: "res \<noteq> Inr ()"
      using assms a b Inl by (auto simp: save_def split: sum.splits)
    have "calls w' = calls w2 \<or> calls w' = calls w2 @ [(Publish DOCUMENT_DOWNLOAD_FAILED, Returns)]"
      using assms a b Inl by (auto simp: save_def publish_def split: sum.splits)
    then obtain es3 where c3: "calls w' = calls w2 @ es3"
      and n3: "es3 = [] \<or> es3 = [(Publish DOCUMENT_DOWNLOAD_FAILED, Returns)]"
      by auto
    have nc: "new_calls w w' = (?d, oc) # es @ es2 @ es3"
      using c1 c2 c3 by (simp add: new_calls_def)
    have tail: "\<not> list_ex (sets_state Downloaded) (es2 @ es3)"
      "\<not> list_ex (sets_state Downloading) (es2 @ es3)"
      "(Publish DOCUMENT_DOWNLOADED, Returns) \<notin> set (es2 @ es3)"
      using n2 n3 by auto
    have "only_after (sets_state Downloaded) downloaded_bytes (((?d, oc) # es) @ es2 @ es3)"
      "only_after (sets_state Downloaded) written (((?d, oc) # es) @ es2 @ es3)"
      using only_after_append [OF o1 tail(1)] only_after_append [OF o2 tail(1)] by simp_all
    moreover have "(Publish DOCUMENT_DOWNLOADED, Returns) \<notin> set es"
      using fin Inl by simp
    ultimately show ?thesis
      using nc res n1 tail by (auto simp: list_ex_iff)
  qed
qed


theorem save_order_witness:
  "fst (save helpers0 doc1 world0) = Inr () \<and>
   new_calls world0 (snd (snd (save helpers0 doc1 world0))) =
     [(DownloadDocument ''wg-1'' ''doc-1'', Returns),
      (WriteFile ''files/doc-1'', Returns),
      (FilesGetByUuid ''doc-1'', Returns),
      (FilesCreate ''doc-1'' (Some Downloaded) (Some ''k''), Returns),
      (GetNode ''wg-1'' ''doc-1'', Returns),
      (Publish DOCUMENT_DOWNLOADED, Returns)]"
  using save_order [of helpers0 doc1 world0 "fst (save helpers0 doc1 world0)"
          "fst (snd (save helpers0 doc1 world0))" "snd (snd (save helpers0 doc1 world0))"]
  by (simp add: save_def save_try_def downloadDocument_def writeFile_def setState_def
        Files_getByUuid_def Files_create_def populateMetadata_def getNode_def
        uuidV4_def attempt_def publish_def isDownloaded_def
        existsSync_def new_calls_def world0_def doc1_def keygen_def Let_def)

end
